theory Spec2Isabelle
  imports Complex_Main "HOL-Library.Sublist" "HOL-Library.AList"
begin

section \<open>Python primitives used by the modules\<close>

text \<open>
  Conventions of the embedding.
  \<^item> Python floats (confidence scores, adjustments) are exact rationals: the literal
    \<open>0.7\<close> is \<open>7 / 10\<close>, and \<open>+\<close>, \<open>-\<close>, \<open>/\<close> and the comparisons are exact.
  \<^item> Python strings are \<open>string\<close>; \<open>str.lower\<close> maps the ASCII capitals.
  \<^item> A dictionary whose keys the code reads with \<open>.get(key, default)\<close> is a record
    whose fields are options: \<open>None\<close> is the absent key.
  \<^item> An exception is the \<open>Inl\<close> of a sum type.
  \<^item> A leading underscore of a Python name is dropped (\<open>_load_logs\<close> is \<open>load_logs\<close>).
\<close>

datatype error = AttributeError | TypeError | ValueError | UnicodeDecodeError

definition lower_char :: "char \<Rightarrow> char" where
  "lower_char c =
     (let n = (of_char c :: nat) in if 65 \<le> n \<and> n \<le> 90 then char_of (n + 32) else c)"

definition lower :: "string \<Rightarrow> string" where
  "lower s = map lower_char s"

text \<open>\<open>a in b\<close> on strings: \<open>a\<close> occurs in \<open>b\<close> as a contiguous block.\<close>

fun py_in :: "string \<Rightarrow> string \<Rightarrow> bool" where
  "py_in xs [] = (xs = [])"
| "py_in xs (y # ys) = (prefix xs (y # ys) \<or> py_in xs ys)"

text \<open>
  \<open>round(x)\<close> rounds to the nearest integer and a tie to the even one;
  \<open>round(x, 2)\<close> does so at the second decimal.
\<close>

definition py_round :: "rat \<Rightarrow> int" where
  "py_round x =
     (let f = \<lfloor>x\<rfloor>; d = x - of_int f
      in if d < 1 / 2 then f else if 1 / 2 < d then f + 1 else if even f then f else f + 1)"

definition round2 :: "rat \<Rightarrow> rat" where
  "round2 x = of_int (py_round (x * 100)) / 100"

text \<open>
  \<open>sorted(xs, key=k, reverse=True)\<close>: descending by key; elements with equal keys keep
  their order in \<open>xs\<close> (Python's sort is stable, also when reversed).
\<close>

definition sorted_reverse :: "('a \<Rightarrow> 'k::linordered_ab_group_add) \<Rightarrow> 'a list \<Rightarrow> 'a list" where
  "sorted_reverse k xs = sort_key (\<lambda>x. - k x) xs"

text \<open>\<open>d.get(key, default)\<close> on an optional field.\<close>

definition get_default :: "'a option \<Rightarrow> 'a \<Rightarrow> 'a" where
  "get_default v d = (case v of None \<Rightarrow> d | Some x \<Rightarrow> x)"

section \<open>Data model\<close>

text \<open>
  A finding dictionary. \<open>finding_name\<close> is the key \<open>"finding"\<close>; \<open>extra\<close> stands for
  every other key the dictionary holds (\<open>ontology_mapping\<close>, \<open>explanation\<close>, ...).
\<close>

record 'x finding =
  finding_name :: "string option"
  location :: "string option"
  evidence :: "string option"
  confidence :: "rat option"
  severity :: "string option"
  confidence_adjusted :: "bool option"
  adjustment_reason :: "string option"
  extra :: 'x

section \<open>Ontology processor (modules/ontology\_processor.py)\<close>

definition calculate_mapping_confidence :: "string list \<Rightarrow> string list \<Rightarrow> rat \<Rightarrow> rat" where
  "calculate_mapping_confidence radlex_matches chexpert_matches original_confidence =
     (let base_confidence = original_confidence;
          base_confidence =
            (if radlex_matches \<noteq> [] \<and> chexpert_matches \<noteq> [] then min 1 (base_confidence + 2 / 10)
             else if radlex_matches \<noteq> [] \<or> chexpert_matches \<noteq> [] then min 1 (base_confidence + 1 / 10)
             else base_confidence)
      in round2 base_confidence)"

record ontology_mapping =
  radlex_conditions :: "string list"
  radlex_keywords :: "string set"
  chexpert_labels :: "string list"
  mapping_confidence :: rat

text \<open>
  The two nested loops over \<open>radlex_terms.items()\<close> and the keywords of each condition:
  the state is the pair (\<open>matched_conditions\<close>, \<open>matched_keywords\<close>).
\<close>

definition match_keyword :: "string \<Rightarrow> string \<Rightarrow> string \<Rightarrow> string list \<times> string list \<Rightarrow> string list \<times> string list" where
  "match_keyword combined_text condition keyword acc =
     (case acc of (matched_conditions, matched_keywords) \<Rightarrow>
        if py_in (lower keyword) combined_text
        then ((if condition \<notin> set matched_conditions then matched_conditions @ [condition]
               else matched_conditions),
              matched_keywords @ [keyword])
        else acc)"

definition match_radlex :: "(string \<times> string list) list \<Rightarrow> string \<Rightarrow> string list \<times> string list" where
  "match_radlex radlex_terms combined_text =
     fold (\<lambda>(condition, keywords) acc. fold (match_keyword combined_text condition) keywords acc)
       radlex_terms ([], [])"

text \<open>
  One iteration of \<open>map_findings_to_ontology\<close>: the enhanced finding is the copy of the
  finding together with its \<open>ontology_mapping\<close> entry.
\<close>

definition map_finding_to_ontology ::
  "(string \<times> string list) list \<Rightarrow> string list \<Rightarrow> 'x finding \<Rightarrow> 'x finding \<times> ontology_mapping" where
  "map_finding_to_ontology radlex_terms labels finding =
     (let name = lower (get_default (finding_name finding) '''');
          evidence_text = lower (get_default (evidence finding) '''');
          combined_text = name @ '' '' @ evidence_text;
          (matched_conditions, matched_keywords) = match_radlex radlex_terms combined_text;
          chexpert_matches = filter (\<lambda>label. py_in (lower label) combined_text) labels
      in (finding,
          \<lparr>radlex_conditions = matched_conditions,
           radlex_keywords = set matched_keywords,
           chexpert_labels = chexpert_matches,
           mapping_confidence =
             calculate_mapping_confidence matched_conditions chexpert_matches
               (get_default (confidence finding) (5 / 10))\<rparr>))"

definition map_findings_to_ontology ::
  "(string \<times> string list) list \<Rightarrow> string list \<Rightarrow> 'x finding list \<Rightarrow> ('x finding \<times> ontology_mapping) list" where
  "map_findings_to_ontology radlex_terms labels findings =
     map (map_finding_to_ontology radlex_terms labels) findings"

section \<open>Explainability engine (modules/explainability.py)\<close>














section \<open>Report normalizer (modules/json\_report\_generator.py)\<close>







section \<open>Feedback logger (modules/feedback\_logger.py)\<close>

text \<open>
  A report dictionary after the normalizer: the keys the code reads are fields,
  \<open>other_keys\<close> are the items of every other key.
\<close>

record ('x, 'y) report =
  findings :: "'x finding list option"
  impression :: "string option"
  recommendations :: "string list option"
  metadata :: "(string \<times> string) list option"
  rules_applied :: "nat option"
  other_keys :: "(string \<times> 'y) list"

text \<open>
  An optional argument that the logger stores and never inspects: \<open>None\<close>, an empty
  list or dictionary (both falsy), or a non-empty value.
\<close>

datatype 'p payload = PyNone | EmptyList | EmptyDict | Payload 'p

text \<open>\<open>x or d\<close> on such an argument.\<close>

definition or_default :: "'p payload \<Rightarrow> 'p payload \<Rightarrow> 'p payload" where
  "or_default x d = (case x of Payload p \<Rightarrow> Payload p | _ \<Rightarrow> d)"

record 'p entry_base =
  timestamp :: string
  image :: string
  explanations :: "'p payload"
  user_feedback :: "'p payload"
  entry_ontology_mapping :: "'p payload"
  has_edits :: bool
  edit_count :: nat

record ('x, 'y, 'p) feedback_entry = "'p entry_base" +
  original_report :: "('x, 'y) report"
  edited_report :: "('x, 'y) report option"
  entry_metadata :: "'p payload"

record ('x, 'p) learning_entry = "'p entry_base" +
  original_findings :: "'x finding list"
  edited_findings :: "'x finding list"

text \<open>
  A log file on disk: absent, bytes that are no UTF-8 text, text that is no JSON
  document, or the JSON list of entries that the logger wrote. \<open>writable\<close> says that
  the log directory accepts writes.
\<close>

datatype 'a log_file = Missing | NotUtf8 | NotJson | Json 'a

record ('x, 'y, 'p) store =
  feedback_log_file :: "('x, 'y, 'p) feedback_entry list log_file"
  learning_data_file :: "('x, 'p) learning_entry list log_file"
  writable :: bool

text \<open>
  Reading a log: \<open>exists()\<close>, \<open>open(..., encoding="utf-8")\<close>, \<open>json.load\<close>, inside
  \<open>try ... except (json.JSONDecodeError, FileNotFoundError): pass\<close>, then \<open>return []\<close>.
  Text that is no JSON raises JSONDecodeError, which is caught; bytes that are no UTF-8
  raise UnicodeDecodeError in \<open>json.load\<close>, which the handler does not name.
\<close>

definition read_log :: "'a list log_file \<Rightarrow> error + 'a list" where
  "read_log f =
     (case f of
        Missing \<Rightarrow> Inr []
      | NotUtf8 \<Rightarrow> Inl UnicodeDecodeError
      | NotJson \<Rightarrow> Inr []
      | Json logs \<Rightarrow> Inr logs)"

definition load_logs :: "('x, 'y, 'p) store \<Rightarrow> error + ('x, 'y, 'p) feedback_entry list" where
  "load_logs st = read_log (feedback_log_file st)"

definition load_learning_data :: "('x, 'y, 'p) store \<Rightarrow> error + ('x, 'p) learning_entry list" where
  "load_learning_data st = read_log (learning_data_file st)"

text \<open>
  Writing a log rewrites the whole file. When the write fails with OSError, the handler
  \<open>except (OSError, json.JSONEncodeError)\<close> is evaluated; the \<open>json\<close> module has no
  such attribute, so what reaches the caller is AttributeError.
\<close>

definition save_logs ::
  "('x, 'y, 'p) feedback_entry list \<Rightarrow> ('x, 'y, 'p) store \<Rightarrow> (error + unit) \<times> ('x, 'y, 'p) store" where
  "save_logs logs st =
     (if writable st then (Inr (), st\<lparr>feedback_log_file := Json logs\<rparr>)
      else (Inl AttributeError, st))"

definition count_edits :: "('x, 'y) report \<Rightarrow> ('x, 'y) report \<Rightarrow> nat" where
  "count_edits original edited =
     (let original_findings = get_default (findings original) [];
          edited_findings = get_default (findings edited) [];
          n = (if length original_findings \<noteq> length edited_findings
               then nat \<bar>int (length original_findings) - int (length edited_findings)\<bar>
               else 0);
          n = n + length (filter (\<lambda>(orig_f, edit_f). orig_f \<noteq> edit_f)
                            (zip original_findings edited_findings));
          n = (if impression original \<noteq> impression edited then n + 1 else n);
          n = (if recommendations original \<noteq> recommendations edited then n + 1 else n)
      in n)"

text \<open>An empty dictionary is falsy: \<open>if edited_report\<close> asks for a key.\<close>

definition report_truthy :: "('x, 'y) report \<Rightarrow> bool" where
  "report_truthy r =
     (findings r \<noteq> None \<or> impression r \<noteq> None \<or> recommendations r \<noteq> None \<or>
      metadata r \<noteq> None \<or> rules_applied r \<noteq> None \<or> other_keys r \<noteq> [])"

text \<open>
  \<open>_save_learning_data\<close>. The entry always has the key \<open>edited_report\<close>, so
  \<open>entry.get("edited_report", {})\<close> is \<open>None\<close> for an entry without edits and the
  following \<open>.get("findings", [])\<close> raises AttributeError, before the file is read.
\<close>

definition save_learning_data ::
  "('x, 'y, 'p) feedback_entry \<Rightarrow> ('x, 'y, 'p) store \<Rightarrow> (error + unit) \<times> ('x, 'y, 'p) store" where
  "save_learning_data entry st =
     (case edited_report entry of
        None \<Rightarrow> (Inl AttributeError, st)
      | Some edited \<Rightarrow>
          (let learning_entry =
                 \<lparr>timestamp = timestamp entry,
                  image = image entry,
                  explanations = explanations entry,
                  user_feedback = user_feedback entry,
                  entry_ontology_mapping = entry_ontology_mapping entry,
                  has_edits = has_edits entry,
                  edit_count = edit_count entry,
                  original_findings = get_default (findings (original_report entry)) [],
                  edited_findings = get_default (findings edited) []\<rparr>
           in case load_learning_data st of
                Inl e \<Rightarrow> (Inl e, st)
              | Inr learning_data \<Rightarrow>
                  if writable st
                  then (Inr (), st\<lparr>learning_data_file := Json (learning_data @ [learning_entry])\<rparr>)
                  else (Inl AttributeError, st)))"

text \<open>
  The search loop of \<open>log_feedback\<close>: the index of the first entry of this image that
  has no edits, if there is one.
\<close>

fun existing_entry_index :: "string \<Rightarrow> ('x, 'y, 'p) feedback_entry list \<Rightarrow> nat option" where
  "existing_entry_index image_name [] = None"
| "existing_entry_index image_name (existing_log # logs) =
     (if image existing_log = image_name \<and> \<not> has_edits existing_log then Some 0
      else map_option Suc (existing_entry_index image_name logs))"

text \<open>
  The dictionary \<open>entry\<close> that \<open>log_feedback\<close> builds; \<open>now\<close> is the value of
  \<open>datetime.now().isoformat()\<close> at the call.
\<close>

definition make_entry ::
  "string \<Rightarrow> string \<Rightarrow> ('x, 'y) report \<Rightarrow> ('x, 'y) report option \<Rightarrow> 'p payload \<Rightarrow> 'p payload \<Rightarrow>
   'p payload \<Rightarrow> 'p payload \<Rightarrow> ('x, 'y, 'p) feedback_entry" where
  "make_entry now image_name original edited expl feedback ontology meta =
     \<lparr>timestamp = now,
      image = image_name,
      explanations = or_default expl EmptyList,
      user_feedback = or_default feedback EmptyDict,
      entry_ontology_mapping = or_default ontology EmptyDict,
      has_edits = (edited \<noteq> None),
      edit_count =
        (case edited of
           None \<Rightarrow> 0
         | Some e \<Rightarrow> if report_truthy e then count_edits original e else 0),
      original_report = original,
      edited_report = edited,
      entry_metadata = or_default meta EmptyDict\<rparr>"

text \<open>The update of the entry found by the search loop, or the append of a new one.\<close>

definition upsert ::
  "string \<Rightarrow> ('x, 'y, 'p) feedback_entry \<Rightarrow> ('x, 'y, 'p) feedback_entry list \<Rightarrow>
   ('x, 'y, 'p) feedback_entry list" where
  "upsert image_name entry logs =
     (case existing_entry_index image_name logs of
        Some i \<Rightarrow> logs[i := entry]
      | None \<Rightarrow> logs @ [entry])"

definition log_feedback ::
  "string \<Rightarrow> string \<Rightarrow> ('x, 'y) report \<Rightarrow> ('x, 'y) report option \<Rightarrow> 'p payload \<Rightarrow> 'p payload \<Rightarrow>
   'p payload \<Rightarrow> 'p payload \<Rightarrow> ('x, 'y, 'p) store \<Rightarrow>
   (error + ('x, 'y, 'p) feedback_entry) \<times> ('x, 'y, 'p) store" where
  "log_feedback now image_name original edited expl feedback ontology meta st =
     (let entry = make_entry now image_name original edited expl feedback ontology meta
      in case load_logs st of
           Inl e \<Rightarrow> (Inl e, st)
         | Inr logs \<Rightarrow>
             (case save_logs (upsert image_name entry logs) st of
                (Inl e, st1) \<Rightarrow> (Inl e, st1)
              | (Inr _, st1) \<Rightarrow>
                  (case save_learning_data entry st1 of
                     (Inl e, st2) \<Rightarrow> (Inl e, st2)
                   | (Inr _, st2) \<Rightarrow> (Inr entry, st2))))"

record statistics =
  total_entries :: nat
  entries_with_edits :: nat
  total_edits :: nat
  average_edits_per_entry :: rat
  edit_rate :: "rat option"


section \<open>Continuous learning engine (modules/continuous\_learning.py)\<close>

text \<open>A mined rule is a dictionary with a \<open>type\<close> key: one of three variants.\<close>

datatype rule =
    EditPattern (pattern: string) (support: nat) (rule_confidence: rat)
  | ConfidenceAdjustment (pattern: string) (adjustment: rat) (support: nat)
  | FindingAssociation (pattern: string) (associations: "string set") (support: nat)

record engine =
  rules :: "rule list"

text \<open>
  A \<open>Counter\<close>, a \<open>defaultdict\<close> and a \<open>dict\<close> keep their keys in insertion order: they
  are association lists, and \<open>AList.update\<close> overwrites the value of a key in place or
  appends a new key at the end.
\<close>

definition counter_incr :: "string \<Rightarrow> (string \<times> nat) list \<Rightarrow> (string \<times> nat) list" where
  "counter_incr k patterns = AList.update k (get_default (map_of patterns k) 0 + 1) patterns"

definition edit_pattern_step ::
  "'x finding \<times> 'x finding \<Rightarrow> (string \<times> nat) list \<Rightarrow> (string \<times> nat) list" where
  "edit_pattern_step pair patterns =
     (case pair of (orig_f, edit_f) \<Rightarrow>
        if orig_f \<noteq> edit_f
        then counter_incr (get_default (finding_name orig_f) '''' @ '' -> '' @
                           get_default (finding_name edit_f) '''') patterns
        else patterns)"

definition extract_edit_patterns :: "('x, 'p) learning_entry list \<Rightarrow> (string \<times> nat) list" where
  "extract_edit_patterns learning_data =
     fold (\<lambda>entry patterns.
             if \<not> has_edits entry then patterns
             else fold edit_pattern_step
                    (zip (original_findings entry) (edited_findings entry)) patterns)
       learning_data []"

definition confidence_step ::
  "'x finding \<times> 'x finding \<Rightarrow> (string \<times> rat list) list \<Rightarrow> (string \<times> rat list) list" where
  "confidence_step pair adjustments =
     (case pair of (orig_f, edit_f) \<Rightarrow>
        (let name = get_default (finding_name orig_f) '''';
             orig_conf = get_default (confidence orig_f) (5 / 10);
             edit_conf = get_default (confidence edit_f) (5 / 10)
         in if 1 / 10 < \<bar>orig_conf - edit_conf\<bar>
            then AList.update name
                   (get_default (map_of adjustments name) [] @ [edit_conf - orig_conf]) adjustments
            else adjustments))"

definition extract_confidence_patterns :: "('x, 'p) learning_entry list \<Rightarrow> (string \<times> rat) list" where
  "extract_confidence_patterns learning_data =
     (let adjustments =
            fold (\<lambda>entry adjustments.
                    fold confidence_step
                      (zip (original_findings entry) (edited_findings entry)) adjustments)
              learning_data []
      in map (\<lambda>(pattern, values). (pattern, sum_list values / of_nat (length values)))
           adjustments)"

definition assoc_add :: "string \<Rightarrow> string \<Rightarrow> (string \<times> string set) list \<Rightarrow> (string \<times> string set) list" where
  "assoc_add k v assocs = AList.update k (insert v (get_default (map_of assocs k) {})) assocs"

text \<open>
  The co-occurrence loops: \<open>name1\<close> runs over the names, \<open>name2\<close> over the names
  after it.
\<close>

fun cooccurrences :: "string list \<Rightarrow> (string \<times> string set) list \<Rightarrow> (string \<times> string set) list" where
  "cooccurrences [] assocs = assocs"
| "cooccurrences (name1 # rest) assocs =
     cooccurrences rest
       (fold (\<lambda>name2 assocs. assoc_add name2 name1 (assoc_add name1 name2 assocs)) rest assocs)"

definition finding_names :: "'x finding list \<Rightarrow> string list" where
  "finding_names fs =
     map (\<lambda>f. get_default (finding_name f) '''')
       (filter (\<lambda>f. finding_name f \<noteq> None \<and> finding_name f \<noteq> Some '''') fs)"

definition extract_finding_patterns :: "('x, 'p) learning_entry list \<Rightarrow> (string \<times> string set) list" where
  "extract_finding_patterns learning_data =
     fold (\<lambda>entry assocs. cooccurrences (finding_names (original_findings entry)) assocs)
       learning_data []"

text \<open>
  \<open>str(entry)\<close> is Python's own rendering of a record and is the parameter
  \<open>render\<close>.
\<close>

definition count_pattern_occurrences ::
  "(('x, 'p) learning_entry \<Rightarrow> string) \<Rightarrow> string \<Rightarrow> ('x, 'p) learning_entry list \<Rightarrow> nat" where
  "count_pattern_occurrences render pat learning_data =
     length (filter (\<lambda>entry. py_in pat (render entry)) learning_data)"

definition calculate_rule_confidence ::
  "(('x, 'p) learning_entry \<Rightarrow> string) \<Rightarrow> string \<Rightarrow> ('x, 'p) learning_entry list \<Rightarrow> rat" where
  "calculate_rule_confidence render pat learning_data =
     (let pattern_count = count_pattern_occurrences render pat learning_data;
          total_entries = length (filter has_edits learning_data)
      in if total_entries = 0 then 0
         else round2 (of_nat pattern_count / of_nat total_entries))"

text \<open>The three loops of \<open>mine_rules\<close> that fill \<open>rules\<close>, before the sort.\<close>

definition edit_rules ::
  "(('x, 'p) learning_entry \<Rightarrow> string) \<Rightarrow> ('x, 'p) learning_entry list \<Rightarrow> int \<Rightarrow> rule list" where
  "edit_rules render learning_data min_support =
     map (\<lambda>(pat, count). EditPattern pat count (calculate_rule_confidence render pat learning_data))
       (filter (\<lambda>(pat, count). min_support \<le> int count) (extract_edit_patterns learning_data))"

definition confidence_rules ::
  "(('x, 'p) learning_entry \<Rightarrow> string) \<Rightarrow> ('x, 'p) learning_entry list \<Rightarrow> rule list" where
  "confidence_rules render learning_data =
     map (\<lambda>(pat, adj). ConfidenceAdjustment pat (round2 adj)
                          (count_pattern_occurrences render pat learning_data))
       (filter (\<lambda>(pat, adj). 1 / 10 < \<bar>adj\<bar>) (extract_confidence_patterns learning_data))"

definition association_rules :: "('x, 'p) learning_entry list \<Rightarrow> int \<Rightarrow> rule list" where
  "association_rules learning_data min_support =
     map (\<lambda>(pat, assocs). FindingAssociation pat assocs (card assocs))
       (filter (\<lambda>(pat, assocs). min_support \<le> int (card assocs))
          (extract_finding_patterns learning_data))"

definition mine_rules ::
  "(('x, 'p) learning_entry \<Rightarrow> string) \<Rightarrow> ('x, 'y, 'p) store \<Rightarrow> engine \<Rightarrow> int \<Rightarrow>
   (error + rule list) \<times> engine" where
  "mine_rules render st eng min_support =
     (case load_learning_data st of
        Inl e \<Rightarrow> (Inl e, eng)
      | Inr learning_data \<Rightarrow>
          if learning_data = [] then (Inr [], eng)
          else (let rs = edit_rules render learning_data min_support @
                         confidence_rules render learning_data @
                         association_rules learning_data min_support;
                    rs = sorted_reverse (\<lambda>x. int (support x)) rs
                in (Inr rs, eng\<lparr>rules := rs\<rparr>)))"

text \<open>The body of the loop over \<open>self.rules\<close> in \<open>apply_rules_to_report\<close>.\<close>

definition apply_rule :: "string \<Rightarrow> rule \<Rightarrow> 'x finding \<Rightarrow> 'x finding" where
  "apply_rule name rule improved_finding =
     (case rule of
        ConfidenceAdjustment pat adj n \<Rightarrow>
          if py_in (lower name) (lower pat)
          then (let current_conf = get_default (confidence improved_finding) (5 / 10);
                    new_conf = max 0 (min 1 (current_conf + adj))
                in improved_finding
                     \<lparr>confidence := Some (round2 new_conf),
                      confidence_adjusted := Some True,
                      adjustment_reason := Some (''Based on learned pattern: '' @ pat)\<rparr>)
          else improved_finding
      | _ \<Rightarrow> improved_finding)"

definition improve_finding :: "rule list \<Rightarrow> 'x finding \<Rightarrow> 'x finding" where
  "improve_finding rs finding =
     fold (apply_rule (get_default (finding_name finding) '''')) rs finding"

definition rule_applies :: "('x, 'y) report \<Rightarrow> rule \<Rightarrow> bool" where
  "rule_applies report rule =
     (case rule of
        ConfidenceAdjustment pat adj n \<Rightarrow>
          list_ex (\<lambda>finding. py_in (lower pat) (lower (get_default (finding_name finding) '''')))
            (get_default (findings report) [])
      | _ \<Rightarrow> False)"

definition apply_rules_to_report ::
  "(('x, 'p) learning_entry \<Rightarrow> string) \<Rightarrow> ('x, 'y, 'p) store \<Rightarrow> engine \<Rightarrow> ('x, 'y) report \<Rightarrow>
   (error + ('x, 'y) report) \<times> engine" where
  "apply_rules_to_report render st eng report =
     (case (if rules eng = [] then mine_rules render st eng 2 else (Inr [], eng)) of
        (Inl e, eng1) \<Rightarrow> (Inl e, eng1)
      | (Inr _, eng1) \<Rightarrow>
          (let improved_findings =
                 map (improve_finding (rules eng1)) (get_default (findings report) [])
           in (Inr (report\<lparr>findings := Some improved_findings,
                            rules_applied :=
                              Some (length (filter (rule_applies report) (rules eng1)))\<rparr>),
               eng1)))"

section \<open>Notions used in the statements\<close>



text \<open>Entries of the feedback log: those of an image, and those of an image without edits.\<close>

definition unedited_for :: "string \<Rightarrow> ('x, 'y, 'p) feedback_entry \<Rightarrow> bool" where
  "unedited_for image_name entry = (image entry = image_name \<and> \<not> has_edits entry)"

definition entries_for ::
  "string \<Rightarrow> ('x, 'y, 'p) feedback_entry list \<Rightarrow> ('x, 'y, 'p) feedback_entry list" where
  "entries_for image_name logs = filter (\<lambda>entry. image entry = image_name) logs"

definition at_most_one_unedited :: "('x, 'y, 'p) feedback_entry list \<Rightarrow> bool" where
  "at_most_one_unedited logs =
     (\<forall>image_name. length (filter (unedited_for image_name) logs) \<le> 1)"

subsection \<open>Sample values for the concrete evaluations\<close>

text \<open>
  Findings and reports that hold nothing but a name and a confidence, a store without
  log files, a store whose log files are no UTF-8 text, and an engine that has not mined
  yet. \<open>names_render\<close> renders a learning record as the names of its findings.
\<close>

definition names_render :: "('x, 'p) learning_entry \<Rightarrow> string" where
  "names_render entry =
     concat (map (\<lambda>f. get_default (finding_name f) '''' @ '';'')
               (original_findings entry @ edited_findings entry))"

definition plain_finding :: "string \<Rightarrow> rat \<Rightarrow> unit finding" where
  "plain_finding name conf =
     \<lparr>finding_name = Some name, location = None, evidence = None, confidence = Some conf,
      severity = None, confidence_adjusted = None, adjustment_reason = None, extra = ()\<rparr>"

definition plain_report :: "unit finding list \<Rightarrow> (unit, unit) report" where
  "plain_report fs =
     \<lparr>findings = Some fs, impression = None, recommendations = None, metadata = None,
      rules_applied = None, other_keys = []\<rparr>"

definition empty_store :: "(unit, unit, unit) store" where
  "empty_store = \<lparr>feedback_log_file = Missing, learning_data_file = Missing, writable = True\<rparr>"


definition new_engine :: engine where
  "new_engine = \<lparr>rules = []\<rparr>"

definition generated_report :: "(unit, unit) report" where
  "generated_report = plain_report [plain_finding ''Cardiomegaly'' (5 / 10)]"

definition corrected_report :: "(unit, unit) report" where
  "corrected_report = plain_report [plain_finding ''Cardiomegaly'' (9 / 10)]"

text \<open>
  The store after a call of \<open>log_feedback\<close> for the image \<open>x.jpg\<close>: without an edited
  report (as the report generation logs it), and with one (as a saved feedback does).
\<close>

definition auto_log :: "string \<Rightarrow> (unit, unit, unit) store \<Rightarrow> (unit, unit, unit) store" where
  "auto_log now st =
     snd (log_feedback now ''x.jpg'' generated_report None PyNone PyNone PyNone PyNone st)"

definition edit_log :: "string \<Rightarrow> (unit, unit, unit) store \<Rightarrow> (unit, unit, unit) store" where
  "edit_log now st =
     snd (log_feedback now ''x.jpg'' generated_report (Some corrected_report)
            PyNone PyNone PyNone PyNone st)"

subsection \<open>Notions for the normalizer\<close>









subsection \<open>Notions for the rule applier\<close>

text \<open>
  \<open>pattern_in_name\<close>: the pattern of the rule is a case-insensitive substring of the
  name of the finding. \<open>same_but_confidence\<close>: two findings agree on every key but
  \<open>confidence\<close>, \<open>confidence_adjusted\<close> and \<open>adjustment_reason\<close>.
\<close>

definition is_confidence_adjustment :: "rule \<Rightarrow> bool" where
  "is_confidence_adjustment r = (case r of ConfidenceAdjustment pat adj n \<Rightarrow> True | _ \<Rightarrow> False)"

definition pattern_in_name :: "rule \<Rightarrow> 'x finding \<Rightarrow> bool" where
  "pattern_in_name r f = sublist (lower (pattern r)) (lower (get_default (finding_name f) ''''))"

definition same_but_confidence :: "'x finding \<Rightarrow> 'x finding \<Rightarrow> bool" where
  "same_but_confidence f f' =
     (finding_name f' = finding_name f \<and> location f' = location f \<and>
      evidence f' = evidence f \<and> severity f' = severity f \<and> extra f' = extra f)"

definition keyless_report :: "(unit, unit) report" where
  "keyless_report =
     \<lparr>findings = None, impression = None, recommendations = None, metadata = None,
      rules_applied = None, other_keys = []\<rparr>"

text \<open>
  Sample values: the store after one saved feedback that raised the confidence of
  \<open>Cardiomegaly\<close> from \<open>0.5\<close> to \<open>0.9\<close>, the learning record and the rules it yields, and a
  store whose only learning record has three findings and no change.
\<close>

definition learned_store :: "(unit, unit, unit) store" where
  "learned_store = edit_log ''t1'' empty_store"

definition learned_entry :: "(unit, unit) learning_entry" where
  "learned_entry =
     \<lparr>timestamp = ''t1'', image = ''x.jpg'', explanations = EmptyList,
      user_feedback = EmptyDict, entry_ontology_mapping = EmptyDict,
      has_edits = True, edit_count = 1,
      original_findings = [plain_finding ''Cardiomegaly'' (5 / 10)],
      edited_findings = [plain_finding ''Cardiomegaly'' (9 / 10)]\<rparr>"

definition learned_rules :: "rule list" where
  "learned_rules =
     [EditPattern ''Cardiomegaly -> Cardiomegaly'' 1 0,
      ConfidenceAdjustment ''Cardiomegaly'' (4 / 10) 1]"

definition adjusted_finding :: "unit finding" where
  "adjusted_finding =
     (plain_finding ''Cardiomegaly'' (9 / 10))
       \<lparr>confidence_adjusted := Some True,
        adjustment_reason := Some ''Based on learned pattern: Cardiomegaly''\<rparr>"

definition three_findings_report :: "(unit, unit) report" where
  "three_findings_report =
     plain_report [plain_finding ''Cardiomegaly'' (5 / 10), plain_finding ''Edema'' (5 / 10),
                   plain_finding ''Effusion'' (5 / 10)]"

definition association_store :: "(unit, unit, unit) store" where
  "association_store =
     snd (log_feedback ''t1'' ''y.jpg'' three_findings_report (Some three_findings_report)
            PyNone PyNone PyNone PyNone empty_store)"

subsection \<open>Notions for the rule miner\<close>

text \<open>
  The order in which keys enter a dictionary is the order of their first occurrence in
  the sequence of the keys that the loops touch. \<open>edit_events\<close>, \<open>confidence_events\<close> and
  \<open>association_events\<close> are these sequences for the three extraction passes, in the order
  of the learning log.
\<close>

fun first_occurrences :: "'a list \<Rightarrow> 'a list" where
  "first_occurrences [] = []"
| "first_occurrences (x # xs) = x # first_occurrences (removeAll x xs)"

definition edit_events :: "('x, 'p) learning_entry list \<Rightarrow> string list" where
  "edit_events learning_data =
     map (\<lambda>(orig_f, edit_f).
            get_default (finding_name orig_f) '''' @ '' -> '' @ get_default (finding_name edit_f) '''')
       (filter (\<lambda>(orig_f, edit_f). orig_f \<noteq> edit_f)
          (concat (map (\<lambda>entry. if has_edits entry
                                  then zip (original_findings entry) (edited_findings entry)
                                  else [])
                     learning_data)))"

definition confidence_events :: "('x, 'p) learning_entry list \<Rightarrow> string list" where
  "confidence_events learning_data =
     map (\<lambda>(orig_f, edit_f). get_default (finding_name orig_f) '''')
       (filter (\<lambda>(orig_f, edit_f).
                  1 / 10 < \<bar>get_default (confidence orig_f) (5 / 10) -
                            get_default (confidence edit_f) (5 / 10)\<bar>)
          (concat (map (\<lambda>entry. zip (original_findings entry) (edited_findings entry))
                     learning_data)))"

fun name_pairs :: "string list \<Rightarrow> (string \<times> string) list" where
  "name_pairs [] = []"
| "name_pairs (name1 # rest) =
     concat (map (\<lambda>name2. [(name1, name2), (name2, name1)]) rest) @ name_pairs rest"

definition association_events :: "('x, 'p) learning_entry list \<Rightarrow> string list" where
  "association_events learning_data =
     map fst (concat (map (\<lambda>entry. name_pairs (finding_names (original_findings entry)))
                        learning_data))"

definition is_edit_pattern :: "rule \<Rightarrow> bool" where
  "is_edit_pattern r = (case r of EditPattern pat n c \<Rightarrow> True | _ \<Rightarrow> False)"

definition is_finding_association :: "rule \<Rightarrow> bool" where
  "is_finding_association r = (case r of FindingAssociation pat a n \<Rightarrow> True | _ \<Rightarrow> False)"

section \<open>Rounding\<close>


lemma py_round_of_int: "py_round (of_int k) = k"
  by (simp add: py_round_def)




lemma round2_hundredth: "round2 (of_int k / 100) = of_int k / 100"
  by (simp add: round2_def py_round_of_int)


lemma round2_zero: "round2 0 = 0"
  using round2_hundredth [of 0] by simp

section \<open>Ontology mapping confidence\<close>









section \<open>Explainability bucketing\<close>




section \<open>Feedback store: update or append\<close>

lemma upsert_Nil: "upsert x e [] = [e]"
  by (simp add: upsert_def)

lemma upsert_Cons:
  "upsert x e (l # ls) = (if unedited_for x l then e # ls else l # upsert x e ls)"
  by (simp add: upsert_def unedited_for_def split: option.splits)

lemma upsert_absent:
  "\<forall>l \<in> set ls. \<not> unedited_for x l \<Longrightarrow> upsert x e (ls @ ms) = ls @ upsert x e ms"
  by (induction ls) (simp_all add: upsert_Cons)

lemma length_upsert: "length logs \<le> length (upsert x e logs)"
  by (induction logs) (simp_all add: upsert_Nil upsert_Cons)

lemma upsert_keeps_edited:
  "i < length logs \<Longrightarrow> has_edits (logs ! i) \<Longrightarrow> upsert x e logs ! i = logs ! i"
proof (induction logs arbitrary: i)
  case Nil
  then show ?case by simp
next
  case (Cons l ls)
  show ?case
  proof (cases i)
    case 0
    with Cons.prems show ?thesis by (simp add: upsert_Cons unedited_for_def)
  next
    case (Suc j)
    with Cons show ?thesis by (simp add: upsert_Cons)
  qed
qed

lemma upsert_other_image:
  "image e = x \<Longrightarrow> y \<noteq> x \<Longrightarrow>
   filter (unedited_for y) (upsert x e logs) = filter (unedited_for y) logs"
  by (induction logs) (auto simp: upsert_Nil upsert_Cons unedited_for_def)

lemma upsert_same_image:
  "image e = x \<Longrightarrow>
   length (filter (unedited_for x) (upsert x e logs)) =
   length (filter (unedited_for x) logs) - 1 + (if has_edits e then 0 else 1)"
  by (induction logs) (auto simp: upsert_Nil upsert_Cons unedited_for_def)

lemma upsert_invariant:
  assumes "image e = x" and "at_most_one_unedited logs"
  shows "at_most_one_unedited (upsert x e logs)"
  unfolding at_most_one_unedited_def
proof
  fix y
  show "length (filter (unedited_for y) (upsert x e logs)) \<le> 1"
  proof (cases "y = x")
    case True
    have "length (filter (unedited_for x) logs) \<le> 1"
      using assms(2) by (simp add: at_most_one_unedited_def)
    then show ?thesis using upsert_same_image [OF assms(1), of logs] True by simp
  next
    case False
    then show ?thesis
      using assms(2) upsert_other_image [OF assms(1), of y logs]
      by (simp add: at_most_one_unedited_def)
  qed
qed

lemma image_make_entry [simp]: "image (make_entry now x orig ed a b c d) = x"
  by (simp add: make_entry_def)

lemma has_edits_make_entry [simp]: "has_edits (make_entry now x orig ed a b c d) = (ed \<noteq> None)"
  by (simp add: make_entry_def)

lemma edited_report_make_entry [simp]: "edited_report (make_entry now x orig ed a b c d) = ed"
  by (simp add: make_entry_def)

lemma feedback_log_save_learning_data:
  "feedback_log_file (snd (save_learning_data e st)) = feedback_log_file st"
  by (simp add: save_learning_data_def Let_def split: option.splits sum.splits)

lemma writable_save_learning_data:
  "writable (snd (save_learning_data e st)) = writable st"
  by (simp add: save_learning_data_def Let_def split: option.splits sum.splits)

lemma feedback_log_log_feedback:
  assumes "writable st" and "load_logs st = Inr logs"
  shows "feedback_log_file (snd (log_feedback now x orig ed a b c d st)) =
         Json (upsert x (make_entry now x orig ed a b c d) logs)"
proof -
  let ?e = "make_entry now x orig ed a b c d"
  let ?st1 = "st\<lparr>feedback_log_file := Json (upsert x ?e logs)\<rparr>"
  have "snd (log_feedback now x orig ed a b c d st) = snd (save_learning_data ?e ?st1)"
    using assms
    by (simp add: log_feedback_def save_logs_def Let_def split: prod.splits sum.splits)
  then show ?thesis by (simp add: feedback_log_save_learning_data)
qed

lemma writable_save_logs: "writable (snd (save_logs logs st)) = writable st"
  by (simp add: save_logs_def)

lemma writable_log_feedback:
  "writable (snd (log_feedback now x orig ed a b c d st)) = writable st"
proof (cases "load_logs st")
  case (Inl e)
  then show ?thesis by (simp add: log_feedback_def Let_def)
next
  case (Inr logs)
  let ?e = "make_entry now x orig ed a b c d"
  show ?thesis
  proof (cases "writable st")
    case True
    let ?st1 = "st\<lparr>feedback_log_file := Json (upsert x ?e logs)\<rparr>"
    have "snd (log_feedback now x orig ed a b c d st) = snd (save_learning_data ?e ?st1)"
      using Inr True
      by (simp add: log_feedback_def save_logs_def Let_def split: prod.splits sum.splits)
    then show ?thesis by (simp add: writable_save_learning_data)
  next
    case False
    then show ?thesis using Inr by (simp add: log_feedback_def save_logs_def Let_def)
  qed
qed

lemma log_feedback_unwritable:
  "\<not> writable st \<Longrightarrow> load_logs st = Inr logs \<Longrightarrow>
   snd (log_feedback now x orig ed a b c d st) = st"
  by (simp add: log_feedback_def save_logs_def Let_def)

lemma load_logs_log_feedback:
  assumes "load_logs st = Inr logs"
  shows "load_logs (snd (log_feedback now x orig ed a b c d st)) =
         Inr (if writable st then upsert x (make_entry now x orig ed a b c d) logs else logs)"
proof (cases "writable st")
  case True
  then show ?thesis
    using feedback_log_log_feedback [OF True assms, of now x orig ed a b c d]
    by (simp add: load_logs_def read_log_def)
next
  case False
  then show ?thesis using assms log_feedback_unwritable [OF False assms] by simp
qed

lemma entries_for_append_single:
  "entries_for x logs0 = [] \<Longrightarrow> image e = x \<Longrightarrow> entries_for x (logs0 @ [e]) = [e]"
  by (simp add: entries_for_def)

lemma no_entries_no_unedited:
  "entries_for x logs0 = [] \<Longrightarrow> \<forall>l \<in> set logs0. \<not> unedited_for x l"
  by (auto simp: entries_for_def unedited_for_def filter_empty_conv)

text \<open>
  C1 (as amended). From a store that holds no entry for an image, two calls of
  \<open>log_feedback\<close> for that image without an edited report leave exactly one entry for
  it. A third call that supplies an edited report overwrites that entry in place: the
  store still holds one entry for the image, now with \<open>has_edits\<close>. Only the call after
  it, which finds no entry without edits, appends a second entry. Every call keeps the
  invariant that an image has at most one entry without edits, and leaves every entry
  with edits where it is.
\<close>

theorem upsert_by_image:
  fixes st :: "('x, 'y, 'p) store"
  assumes w: "writable st" and l0: "load_logs st = Inr logs0" and none: "entries_for x logs0 = []"
    and s1: "st1 = snd (log_feedback t1 x r1 None a1 b1 c1 d1 st)"
    and s2: "st2 = snd (log_feedback t2 x r2 None a2 b2 c2 d2 st1)"
    and s3: "st3 = snd (log_feedback t3 x r3 (Some ed) a3 b3 c3 d3 st2)"
    and s4: "st4 = snd (log_feedback t4 x r4 ed4 a4 b4 c4 d4 st3)"
  shows
    "load_logs st2 = Inr (logs0 @ [make_entry t2 x r2 None a2 b2 c2 d2]) \<and>
     entries_for x (logs0 @ [make_entry t2 x r2 None a2 b2 c2 d2]) =
       [make_entry t2 x r2 None a2 b2 c2 d2] \<and>
     load_logs st3 = Inr (logs0 @ [make_entry t3 x r3 (Some ed) a3 b3 c3 d3]) \<and>
     entries_for x (logs0 @ [make_entry t3 x r3 (Some ed) a3 b3 c3 d3]) =
       [make_entry t3 x r3 (Some ed) a3 b3 c3 d3] \<and>
     has_edits (make_entry t3 x r3 (Some ed) a3 b3 c3 d3) \<and>
     load_logs st4 =
       Inr (logs0 @ [make_entry t3 x r3 (Some ed) a3 b3 c3 d3, make_entry t4 x r4 ed4 a4 b4 c4 d4]) \<and>
     (\<forall>now y orig e a b c d (s :: ('x, 'y, 'p) store) logs.
        load_logs s = Inr logs \<longrightarrow>
        (\<exists>logs'. load_logs (snd (log_feedback now y orig e a b c d s)) = Inr logs' \<and>
           (at_most_one_unedited logs \<longrightarrow> at_most_one_unedited logs') \<and>
           (\<forall>i < length logs. has_edits (logs ! i) \<longrightarrow> i < length logs' \<and> logs' ! i = logs ! i)))"
proof -
  let ?e1 = "make_entry t1 x r1 None a1 b1 c1 d1"
  let ?e2 = "make_entry t2 x r2 None a2 b2 c2 d2"
  let ?e3 = "make_entry t3 x r3 (Some ed) a3 b3 c3 d3"
  let ?e4 = "make_entry t4 x r4 ed4 a4 b4 c4 d4"
  have absent: "\<forall>l \<in> set logs0. \<not> unedited_for x l" using none by (rule no_entries_no_unedited)
  have w1: "writable st1" using w s1 by (simp add: writable_log_feedback)
  have w2: "writable st2" using w1 s2 by (simp add: writable_log_feedback)
  have w3: "writable st3" using w2 s3 by (simp add: writable_log_feedback)
  have u1: "upsert x ?e1 logs0 = logs0 @ [?e1]"
    using upsert_absent [OF absent, of ?e1 "[]"] by (simp add: upsert_Nil)
  have l1: "load_logs st1 = Inr (logs0 @ [?e1])"
    unfolding s1 using load_logs_log_feedback [OF l0] w u1 by simp
  have u2: "upsert x ?e2 (logs0 @ [?e1]) = logs0 @ [?e2]"
    using upsert_absent [OF absent, of ?e2 "[?e1]"] by (simp add: upsert_Cons unedited_for_def)
  have l2: "load_logs st2 = Inr (logs0 @ [?e2])"
    unfolding s2 using load_logs_log_feedback [OF l1] w1 u2 by simp
  have u3: "upsert x ?e3 (logs0 @ [?e2]) = logs0 @ [?e3]"
    using upsert_absent [OF absent, of ?e3 "[?e2]"] by (simp add: upsert_Cons unedited_for_def)
  have l3: "load_logs st3 = Inr (logs0 @ [?e3])"
    unfolding s3 using load_logs_log_feedback [OF l2] w2 u3 by simp
  have u4: "upsert x ?e4 (logs0 @ [?e3]) = logs0 @ [?e3, ?e4]"
    using upsert_absent [OF absent, of ?e4 "[?e3]"]
    by (simp add: upsert_Cons upsert_Nil unedited_for_def)
  have l4: "load_logs st4 = Inr (logs0 @ [?e3, ?e4])"
    unfolding s4 using load_logs_log_feedback [OF l3] w3 u4 by simp
  have one2: "entries_for x (logs0 @ [?e2]) = [?e2]"
    using none by (simp add: entries_for_append_single)
  have one3: "entries_for x (logs0 @ [?e3]) = [?e3]"
    using none by (simp add: entries_for_append_single)
  have inv: "\<exists>logs'. load_logs (snd (log_feedback now y orig e a b c d s)) = Inr logs' \<and>
           (at_most_one_unedited logs \<longrightarrow> at_most_one_unedited logs') \<and>
           (\<forall>i < length logs. has_edits (logs ! i) \<longrightarrow> i < length logs' \<and> logs' ! i = logs ! i)"
    if "load_logs s = Inr logs"
    for now y orig e a b c d logs and s :: "('x, 'y, 'p) store"
  proof (cases "writable s")
    case True
    let ?n = "make_entry now y orig e a b c d"
    have "load_logs (snd (log_feedback now y orig e a b c d s)) = Inr (upsert y ?n logs)"
      using load_logs_log_feedback [OF that] True by simp
    moreover have "at_most_one_unedited logs \<longrightarrow> at_most_one_unedited (upsert y ?n logs)"
      using upsert_invariant [of ?n y logs] by simp
    moreover have "\<forall>i < length logs. has_edits (logs ! i) \<longrightarrow>
        i < length (upsert y ?n logs) \<and> upsert y ?n logs ! i = logs ! i"
      using upsert_keeps_edited [of _ logs y ?n] length_upsert [of logs y ?n] by auto
    ultimately show ?thesis by blast
  next
    case False
    then have "load_logs (snd (log_feedback now y orig e a b c d s)) = Inr logs"
      using load_logs_log_feedback [OF that] by simp
    then show ?thesis by blast
  qed
  have he: "has_edits ?e3" by simp
  have inv': "\<forall>now y orig e a b c d (s :: ('x, 'y, 'p) store) logs.
        load_logs s = Inr logs \<longrightarrow>
        (\<exists>logs'. load_logs (snd (log_feedback now y orig e a b c d s)) = Inr logs' \<and>
           (at_most_one_unedited logs \<longrightarrow> at_most_one_unedited logs') \<and>
           (\<forall>i < length logs. has_edits (logs ! i) \<longrightarrow> i < length logs' \<and> logs' ! i = logs ! i))"
    using inv by blast
  show ?thesis
    apply (intro conjI)
          apply (rule l2)
         apply (rule one2)
        apply (rule l3)
       apply (rule one3)
      apply (rule he)
     apply (rule l4)
    apply (rule inv')
    done
qed

text \<open>C1, the amended statement at the image \<open>x.jpg\<close> and the empty store.\<close>

theorem upsert_by_image_witness:
  "writable empty_store \<and> load_logs empty_store = Inr [] \<and>
   entries_for ''x.jpg'' ([] :: (unit, unit, unit) feedback_entry list) = [] \<and>
   load_logs (auto_log ''t2'' (auto_log ''t1'' empty_store)) =
     Inr [make_entry ''t2'' ''x.jpg'' generated_report None PyNone PyNone PyNone PyNone] \<and>
   load_logs (edit_log ''t3'' (auto_log ''t2'' (auto_log ''t1'' empty_store))) =
     Inr [make_entry ''t3'' ''x.jpg'' generated_report (Some corrected_report) PyNone PyNone PyNone PyNone] \<and>
   load_logs (edit_log ''t4'' (edit_log ''t3'' (auto_log ''t2'' (auto_log ''t1'' empty_store)))) =
     Inr [make_entry ''t3'' ''x.jpg'' generated_report (Some corrected_report) PyNone PyNone PyNone PyNone,
          make_entry ''t4'' ''x.jpg'' generated_report (Some corrected_report) PyNone PyNone PyNone PyNone]"
proof -
  have h1: "writable empty_store" by (simp add: empty_store_def)
  have h2: "load_logs empty_store = Inr []"
    by (simp add: empty_store_def load_logs_def read_log_def)
  have h3: "entries_for ''x.jpg'' ([] :: (unit, unit, unit) feedback_entry list) = []"
    by (simp add: entries_for_def)
  note t = upsert_by_image [where st = empty_store and x = "''x.jpg''" and ?logs0.0 = "[]"
      and ?t1.0 = "''t1''" and ?r1.0 = generated_report and ?a1.0 = PyNone and ?b1.0 = PyNone
      and ?c1.0 = PyNone and ?d1.0 = PyNone
      and ?t2.0 = "''t2''" and ?r2.0 = generated_report and ?a2.0 = PyNone and ?b2.0 = PyNone
      and ?c2.0 = PyNone and ?d2.0 = PyNone
      and ?t3.0 = "''t3''" and ?r3.0 = generated_report and ed = corrected_report and ?a3.0 = PyNone
      and ?b3.0 = PyNone and ?c3.0 = PyNone and ?d3.0 = PyNone
      and ?t4.0 = "''t4''" and ?r4.0 = generated_report and ?ed4.0 = "Some corrected_report" and ?a4.0 = PyNone
      and ?b4.0 = PyNone and ?c4.0 = PyNone and ?d4.0 = PyNone,
      OF h1 h2 h3 refl refl refl refl]
  show ?thesis
    unfolding auto_log_def edit_log_def using t h1 h2 h3 by simp
qed

text \<open>
  C1, the claim as stated fails: after two calls without edits and a third call with an
  edited report, the store holds one entry for the image, not two.
\<close>

theorem upsert_by_image_counterexample:
  "load_logs (edit_log ''t3'' (auto_log ''t2'' (auto_log ''t1'' empty_store))) =
     Inr [make_entry ''t3'' ''x.jpg'' generated_report (Some corrected_report)
            PyNone PyNone PyNone PyNone] \<and>
   length (entries_for ''x.jpg''
     [make_entry ''t3'' ''x.jpg'' generated_report (Some corrected_report)
        PyNone PyNone PyNone PyNone]) = 1"
  by code_simp

section \<open>Normalizer\<close>










section \<open>Reading a log\<close>




section \<open>Rule applier\<close>

lemma py_in_sublist: "py_in xs ys \<longleftrightarrow> sublist xs ys"
  by (induction ys) (auto simp: sublist_Cons_right)

lemma same_but_confidence_refl: "same_but_confidence f f"
  by (simp add: same_but_confidence_def)

lemma same_but_confidence_trans:
  "same_but_confidence f g \<Longrightarrow> same_but_confidence g h \<Longrightarrow> same_but_confidence f h"
  by (simp add: same_but_confidence_def)

lemma same_but_confidence_apply_rule: "same_but_confidence f (apply_rule name r f)"
  by (cases r) (simp_all add: apply_rule_def Let_def same_but_confidence_def)

lemma same_but_confidence_fold:
  "same_but_confidence f (fold (apply_rule name) rs f)"
proof (induction rs arbitrary: f)
  case Nil
  then show ?case by (simp add: same_but_confidence_refl)
next
  case (Cons r rs)
  show ?case
    using same_but_confidence_trans [OF same_but_confidence_apply_rule Cons.IH] by simp
qed

lemma same_but_confidence_improve: "same_but_confidence f (improve_finding rs f)"
  unfolding improve_finding_def by (rule same_but_confidence_fold)

lemma apply_rules_result:
  assumes "apply_rules_to_report render st eng report = (Inr report', eng')"
  shows "report' = report
           \<lparr>findings := Some (map (improve_finding (rules eng')) (get_default (findings report) [])),
            rules_applied := Some (length (filter (rule_applies report) (rules eng')))\<rparr>"
  using assms
  by (auto simp: apply_rules_to_report_def Let_def split: if_splits prod.splits sum.splits)

lemma rule_applies_iff:
  "rule_applies report r \<longleftrightarrow>
   is_confidence_adjustment r \<and>
   (\<exists>f \<in> set (get_default (findings report) []). pattern_in_name r f)"
  by (cases r)
     (simp_all add: rule_applies_def is_confidence_adjustment_def pattern_in_name_def
        list_ex_iff py_in_sublist)

lemma mine_rules_total:
  "learning_data_file st \<noteq> NotUtf8 \<Longrightarrow> \<exists>rs eng'. mine_rules render st eng k = (Inr rs, eng')"
  by (cases "learning_data_file st")
     (simp_all add: mine_rules_def load_learning_data_def read_log_def Let_def)

lemma apply_rules_total:
  assumes "rules eng \<noteq> [] \<or> learning_data_file st \<noteq> NotUtf8"
  shows "\<exists>report' eng'. apply_rules_to_report render st eng report = (Inr report', eng')"
proof (cases "rules eng = []")
  case True
  with assms obtain rs eng' where "mine_rules render st eng 2 = (Inr rs, eng')"
    using mine_rules_total [of st render eng 2] by blast
  with True show ?thesis by (simp add: apply_rules_to_report_def Let_def)
next
  case False
  then show ?thesis by (simp add: apply_rules_to_report_def Let_def)
qed

text \<open>
  C10 (as amended). \<open>apply_rules_to_report\<close> returns a report unless the engine has no
  rules yet and the learning log cannot be read. The report it returns has as many
  findings as the input, in the same order; each finding differs from its original at
  most in \<open>confidence\<close>, \<open>confidence_adjusted\<close> and \<open>adjustment_reason\<close>; \<open>impression\<close>,
  \<open>recommendations\<close>, \<open>metadata\<close> and every other key are unchanged. The keys it sets are
  \<open>rules_applied\<close> and \<open>findings\<close>: an input without a \<open>findings\<close> key gets the empty
  list.
\<close>

theorem apply_rules_frame:
  "(rules eng \<noteq> [] \<or> learning_data_file st \<noteq> NotUtf8 \<longrightarrow>
      (\<exists>report' eng'. apply_rules_to_report render st eng report = (Inr report', eng'))) \<and>
   (apply_rules_to_report render st eng report = (Inr report', eng') \<longrightarrow>
      (\<exists>fs' n. report' = report\<lparr>findings := Some fs', rules_applied := Some n\<rparr> \<and>
         length fs' = length (get_default (findings report) []) \<and>
         (\<forall>i < length fs'. same_but_confidence (get_default (findings report) [] ! i) (fs' ! i))) \<and>
      impression report' = impression report \<and>
      recommendations report' = recommendations report \<and>
      metadata report' = metadata report \<and>
      other_keys report' = other_keys report)"
proof (intro conjI impI)
  assume "rules eng \<noteq> [] \<or> learning_data_file st \<noteq> NotUtf8"
  then show "\<exists>report' eng'. apply_rules_to_report render st eng report = (Inr report', eng')"
    by (rule apply_rules_total)
next
  assume ok: "apply_rules_to_report render st eng report = (Inr report', eng')"
  let ?fs = "get_default (findings report) []"
  let ?fs' = "map (improve_finding (rules eng')) ?fs"
  let ?n = "length (filter (rule_applies report) (rules eng'))"
  have r: "report' = report\<lparr>findings := Some ?fs', rules_applied := Some ?n\<rparr>"
    using ok by (rule apply_rules_result)
  have "\<forall>i < length ?fs'. same_but_confidence (?fs ! i) (?fs' ! i)"
    by (simp add: same_but_confidence_improve)
  with r show "\<exists>fs' n. report' = report\<lparr>findings := Some fs', rules_applied := Some n\<rparr> \<and>
         length fs' = length ?fs \<and>
         (\<forall>i < length fs'. same_but_confidence (?fs ! i) (fs' ! i))"
    by (intro exI [of _ ?fs'] exI [of _ ?n]) simp
  show "impression report' = impression report" by (subst r) simp
  show "recommendations report' = recommendations report" by (subst r) simp
  show "metadata report' = metadata report" by (subst r) simp
  show "other_keys report' = other_keys report" by (subst r) simp
qed

text \<open>C10, the amended statement at the sample store and the generated report.\<close>

theorem apply_rules_frame_witness:
  "learning_data_file learned_store = Json [learned_entry] \<and>
   apply_rules_to_report names_render learned_store new_engine generated_report =
     (Inr (generated_report\<lparr>findings := Some [adjusted_finding], rules_applied := Some 1\<rparr>),
      \<lparr>rules = [ConfidenceAdjustment ''Cardiomegaly'' (4 / 10) 1]\<rparr>) \<and>
   same_but_confidence (plain_finding ''Cardiomegaly'' (5 / 10)) adjusted_finding \<and>
   impression (generated_report\<lparr>findings := Some [adjusted_finding], rules_applied := Some 1\<rparr>) =
     impression generated_report"
proof -
  have h0: "learning_data_file learned_store = Json [learned_entry]" by code_simp
  then have h1: "rules new_engine \<noteq> [] \<or> learning_data_file learned_store \<noteq> NotUtf8" by simp
  have h2: "apply_rules_to_report names_render learned_store new_engine generated_report =
     (Inr (generated_report\<lparr>findings := Some [adjusted_finding], rules_applied := Some 1\<rparr>),
      \<lparr>rules = [ConfidenceAdjustment ''Cardiomegaly'' (4 / 10) 1]\<rparr>)"
    by code_simp
  have h3: "same_but_confidence (plain_finding ''Cardiomegaly'' (5 / 10)) adjusted_finding"
    by code_simp
  note t = apply_rules_frame [where render = names_render and st = learned_store
      and eng = new_engine and report = generated_report
      and report' = "generated_report\<lparr>findings := Some [adjusted_finding], rules_applied := Some 1\<rparr>"
      and eng' = "\<lparr>rules = [ConfidenceAdjustment ''Cardiomegaly'' (4 / 10) 1]\<rparr>"]
  from t h1 h2 have "impression (generated_report\<lparr>findings := Some [adjusted_finding],
      rules_applied := Some 1\<rparr>) = impression generated_report"
    by blast
  with h0 h2 h3 show ?thesis by blast
qed

text \<open>
  C10, the claim as stated fails: for a report without a \<open>findings\<close> key the result has
  the key \<open>findings\<close>, so \<open>rules_applied\<close> is not the only key added.
\<close>

theorem apply_rules_frame_counterexample:
  "findings keyless_report = None \<and>
   apply_rules_to_report names_render learned_store new_engine keyless_report =
     (Inr (keyless_report\<lparr>findings := Some [], rules_applied := Some 0\<rparr>),
      \<lparr>rules = [ConfidenceAdjustment ''Cardiomegaly'' (4 / 10) 1]\<rparr>) \<and>
   findings (keyless_report\<lparr>findings := Some [], rules_applied := Some 0\<rparr>) = Some []"
  by code_simp

text \<open>
  C8 (as amended). \<open>rules_applied\<close> is the number of confidence-adjustment rules of the
  engine whose pattern is a case-insensitive substring of the name of at least one finding
  of the original report; edit-pattern and finding-association rules are never counted.
  The rules are those the engine holds, or those it mines with \<open>min_support = 2\<close> when it
  holds none.
\<close>

theorem rules_applied_count:
  "apply_rules_to_report render st eng report = (Inr report', eng') \<longrightarrow>
   rules_applied report' =
     Some (length (filter
       (\<lambda>r. is_confidence_adjustment r \<and>
            (\<exists>f \<in> set (get_default (findings report) []). pattern_in_name r f))
       (rules eng'))) \<and>
   (rules eng \<noteq> [] \<longrightarrow> eng' = eng) \<and>
   (rules eng = [] \<longrightarrow> fst (mine_rules render st eng 2) = Inr (rules eng'))"
proof (rule impI)
  assume ok: "apply_rules_to_report render st eng report = (Inr report', eng')"
  have "rules_applied report' = Some (length (filter (rule_applies report) (rules eng')))"
    by (subst apply_rules_result [OF ok]) simp
  moreover have "filter (rule_applies report) (rules eng') =
     filter (\<lambda>r. is_confidence_adjustment r \<and>
            (\<exists>f \<in> set (get_default (findings report) []). pattern_in_name r f)) (rules eng')"
    by (rule filter_cong) (simp_all add: rule_applies_iff)
  moreover have "rules eng \<noteq> [] \<longrightarrow> eng' = eng"
    using ok by (auto simp: apply_rules_to_report_def Let_def)
  moreover have "rules eng = [] \<longrightarrow> fst (mine_rules render st eng 2) = Inr (rules eng')"
    using ok
    by (auto simp: apply_rules_to_report_def mine_rules_def Let_def
          split: if_splits prod.splits sum.splits)
  ultimately show "rules_applied report' =
     Some (length (filter
       (\<lambda>r. is_confidence_adjustment r \<and>
            (\<exists>f \<in> set (get_default (findings report) []). pattern_in_name r f))
       (rules eng'))) \<and>
   (rules eng \<noteq> [] \<longrightarrow> eng' = eng) \<and>
   (rules eng = [] \<longrightarrow> fst (mine_rules render st eng 2) = Inr (rules eng'))"
    by simp
qed

text \<open>C8, the amended statement at the sample store and the generated report.\<close>

theorem rules_applied_count_witness:
  "apply_rules_to_report names_render learned_store new_engine generated_report =
     (Inr (generated_report\<lparr>findings := Some [adjusted_finding], rules_applied := Some 1\<rparr>),
      \<lparr>rules = [ConfidenceAdjustment ''Cardiomegaly'' (4 / 10) 1]\<rparr>) \<and>
   rules new_engine = [] \<and>
   fst (mine_rules names_render learned_store new_engine 2) =
     Inr [ConfidenceAdjustment ''Cardiomegaly'' (4 / 10) 1] \<and>
   rules_applied (generated_report\<lparr>findings := Some [adjusted_finding], rules_applied := Some 1\<rparr>) =
     Some (length (filter
       (\<lambda>r. is_confidence_adjustment r \<and>
            (\<exists>f \<in> set (get_default (findings generated_report) []). pattern_in_name r f))
       [ConfidenceAdjustment ''Cardiomegaly'' (4 / 10) 1]))"
proof -
  have h1: "apply_rules_to_report names_render learned_store new_engine generated_report =
     (Inr (generated_report\<lparr>findings := Some [adjusted_finding], rules_applied := Some 1\<rparr>),
      \<lparr>rules = [ConfidenceAdjustment ''Cardiomegaly'' (4 / 10) 1]\<rparr>)"
    by code_simp
  have h2: "rules new_engine = []" by (simp add: new_engine_def)
  note t = rules_applied_count [where render = names_render and st = learned_store
      and eng = new_engine and report = generated_report
      and report' = "generated_report\<lparr>findings := Some [adjusted_finding], rules_applied := Some 1\<rparr>"
      and eng' = "\<lparr>rules = [ConfidenceAdjustment ''Cardiomegaly'' (4 / 10) 1]\<rparr>"]
  from t h1 h2 show ?thesis by simp
qed

text \<open>
  C8, the claim as stated fails: the engine mines three finding-association rules, the
  pattern \<open>Edema\<close> of one of them is a substring of the name of the finding of the
  report, and \<open>rules_applied\<close> is \<open>0\<close>.
\<close>

theorem rules_applied_count_counterexample:
  "apply_rules_to_report names_render association_store new_engine
     (plain_report [plain_finding ''Edema'' (5 / 10)]) =
     (Inr ((plain_report [plain_finding ''Edema'' (5 / 10)])\<lparr>rules_applied := Some 0\<rparr>),
      \<lparr>rules =
         [FindingAssociation ''Cardiomegaly'' {''Effusion'', ''Edema''} 2,
          FindingAssociation ''Edema'' {''Effusion'', ''Cardiomegaly''} 2,
          FindingAssociation ''Effusion'' {''Edema'', ''Cardiomegaly''} 2]\<rparr>) \<and>
   py_in (lower ''Edema'') (lower ''Edema'')"
  by code_simp

lemma apply_rule_direction:
  "confidence_adjusted (apply_rule name r (f\<lparr>confidence_adjusted := None\<rparr>)) = Some True \<longleftrightarrow>
   is_confidence_adjustment r \<and> sublist (lower name) (lower (pattern r))"
  by (cases r) (simp_all add: apply_rule_def is_confidence_adjustment_def py_in_sublist Let_def)

text \<open>
  C2. The claim: a confidence-adjustment rule adjusts a finding exactly when the pattern of
  the rule is a case-insensitive substring of the name of the finding. The loop of
  \<open>apply_rules_to_report\<close> tests the opposite containment (the name of the finding in the
  pattern), while \<open>_rule_applies\<close> tests the one the claim states. With the rule for
  \<open>Cardiomegaly\<close> mined from the sample store, the finding \<open>Mild Cardiomegaly\<close> (which
  contains the pattern) keeps its confidence \<open>0.5\<close>, although \<open>rules_applied\<close> counts the
  rule for it, and the finding \<open>Card\<close> (which does not contain the pattern) is raised to
  \<open>0.9\<close>.
\<close>

theorem rule_direction_failing_input:
  "apply_rules_to_report names_render learned_store new_engine
     (plain_report [plain_finding ''Mild Cardiomegaly'' (5 / 10), plain_finding ''Card'' (5 / 10)]) =
     (Inr ((plain_report
              [plain_finding ''Mild Cardiomegaly'' (5 / 10),
               (plain_finding ''Card'' (9 / 10))
                 \<lparr>confidence_adjusted := Some True,
                  adjustment_reason := Some ''Based on learned pattern: Cardiomegaly''\<rparr>])
            \<lparr>rules_applied := Some 1\<rparr>),
      \<lparr>rules = [ConfidenceAdjustment ''Cardiomegaly'' (4 / 10) 1]\<rparr>) \<and>
   py_in (lower ''Cardiomegaly'') (lower ''Mild Cardiomegaly'') \<and>
   \<not> py_in (lower ''Cardiomegaly'') (lower ''Card'')"
  by code_simp

section \<open>The learning loop, end to end\<close>

lemma round2_two_fifths: "round2 (2 / 5) = 2 / 5"
  using round2_hundredth [of 40] by simp

lemma round2_nine_tenths: "round2 (9 / 10) = 9 / 10"
  using round2_hundredth [of 90] by simp

lemma lower_idem_in: "py_in (lower s) (lower s)"
  by (simp add: py_in_sublist)

lemma apply_rule_edit: "apply_rule name (EditPattern p n c) f = f"
  by (simp add: apply_rule_def)

lemma apply_rule_same_name:
  assumes "confidence f = Some (5 / 10)"
  shows "apply_rule name (ConfidenceAdjustment name (2 / 5) n) f =
         f\<lparr>confidence := Some (9 / 10), confidence_adjusted := Some True,
           adjustment_reason := Some (''Based on learned pattern: '' @ name)\<rparr>"
  using assms
  by (simp add: apply_rule_def lower_idem_in get_default_def Let_def round2_nine_tenths)

lemma sorted_reverse_two:
  "sorted_reverse k [a, b] = (if k b \<le> k a then [a, b] else [b, a])"
  by (simp add: sorted_reverse_def)

lemma scenario_mined:
  fixes entry :: "('x, 'p) learning_entry"
  assumes "has_edits entry"
    and "original_findings entry = [orig_f]" and "edited_findings entry = [edit_f]"
    and "finding_name orig_f = Some ''Cardiomegaly''" and "confidence orig_f = Some (5 / 10)"
    and "finding_name edit_f = Some ''Cardiomegaly''" and "confidence edit_f = Some (9 / 10)"
  shows "extract_edit_patterns [entry] = [(''Cardiomegaly -> Cardiomegaly'', 1)]"
    and "extract_confidence_patterns [entry] = [(''Cardiomegaly'', 2 / 5)]"
    and "extract_finding_patterns [entry] = []"
proof -
  have ne: "orig_f \<noteq> edit_f" using assms(5,7) by auto
  show "extract_edit_patterns [entry] = [(''Cardiomegaly -> Cardiomegaly'', 1)]"
    using assms ne
    by (simp add: extract_edit_patterns_def edit_pattern_step_def counter_incr_def get_default_def)
  show "extract_confidence_patterns [entry] = [(''Cardiomegaly'', 2 / 5)]"
    using assms
    by (simp add: extract_confidence_patterns_def confidence_step_def get_default_def Let_def)
  show "extract_finding_patterns [entry] = []"
    using assms by (simp add: extract_finding_patterns_def finding_names_def get_default_def)
qed

text \<open>
  C3. Let the learning log hold exactly one record, with edits, whose original findings
  are one finding \<open>Cardiomegaly\<close> of confidence \<open>0.5\<close> and whose edited findings are one
  finding \<open>Cardiomegaly\<close> of confidence \<open>0.9\<close>. Mining with \<open>min_support = 1\<close> returns a
  rule list that holds a confidence-adjustment rule with pattern \<open>Cardiomegaly\<close> and
  adjustment \<open>0.4\<close>; applying the mined rules to a report that has a finding
  \<open>Cardiomegaly\<close> of confidence \<open>0.5\<close> returns that finding with confidence \<open>0.9\<close> and
  \<open>confidence_adjusted\<close> set. This holds whatever \<open>str\<close> renders a record as.
\<close>

theorem end_to_end_learning_loop:
  fixes entry :: "('x, 'p) learning_entry" and st :: "('x, 'y, 'p) store"
  assumes data: "learning_data_file st = Json [entry]"
    and edits: "has_edits entry"
    and orig: "original_findings entry = [orig_f]" and edit: "edited_findings entry = [edit_f]"
    and on: "finding_name orig_f = Some ''Cardiomegaly''" and oc: "confidence orig_f = Some (5 / 10)"
    and en: "finding_name edit_f = Some ''Cardiomegaly''" and ec: "confidence edit_f = Some (9 / 10)"
    and mined: "mine_rules render st eng 1 = (res, eng')"
    and fs: "findings report = Some fs" and i: "i < length fs"
    and fn: "finding_name (fs ! i) = Some ''Cardiomegaly''"
    and fc: "confidence (fs ! i) = Some (5 / 10)"
  shows "\<exists>rs n report' fs'.
           res = Inr rs \<and> rules eng' = rs \<and>
           ConfidenceAdjustment ''Cardiomegaly'' (4 / 10) n \<in> set rs \<and>
           apply_rules_to_report render st eng' report = (Inr report', eng') \<and>
           findings report' = Some fs' \<and> length fs' = length fs \<and>
           finding_name (fs' ! i) = Some ''Cardiomegaly'' \<and>
           confidence (fs' ! i) = Some (9 / 10) \<and>
           confidence_adjusted (fs' ! i) = Some True"
proof -
  let ?E = "EditPattern ''Cardiomegaly -> Cardiomegaly'' 1
              (calculate_rule_confidence render ''Cardiomegaly -> Cardiomegaly'' [entry])"
  let ?n = "count_pattern_occurrences render ''Cardiomegaly'' [entry]"
  let ?C = "ConfidenceAdjustment ''Cardiomegaly'' (2 / 5) ?n"
  let ?rs = "sorted_reverse (\<lambda>x. int (support x)) [?E, ?C]"
  note m = scenario_mined [OF edits orig edit on oc en ec]
  have er: "edit_rules render [entry] 1 = [?E]" by (simp add: edit_rules_def m)
  have cr: "confidence_rules render [entry] = [?C]"
    by (simp add: confidence_rules_def m round2_two_fifths)
  have ar: "association_rules [entry] 1 = []" by (simp add: association_rules_def m)
  have mine: "mine_rules render st eng 1 = (Inr ?rs, eng\<lparr>rules := ?rs\<rparr>)"
    using data by (simp add: mine_rules_def load_learning_data_def read_log_def er cr ar Let_def)
  have res: "res = Inr ?rs" and eng': "eng' = eng\<lparr>rules := ?rs\<rparr>"
    using mined mine by simp_all
  have order: "?rs = [?E, ?C] \<or> ?rs = [?C, ?E]" by (simp add: sorted_reverse_two)
  have mem: "?C \<in> set ?rs" using order by auto
  have ne: "?rs \<noteq> []" using order by auto
  let ?f' = "(fs ! i)\<lparr>confidence := Some (9 / 10), confidence_adjusted := Some True,
                       adjustment_reason := Some (''Based on learned pattern: '' @ ''Cardiomegaly'')\<rparr>"
  have imp: "improve_finding ?rs (fs ! i) = ?f'"
    using order fn fc
    by (auto simp: improve_finding_def get_default_def apply_rule_edit apply_rule_same_name)
  let ?fs' = "map (improve_finding ?rs) fs"
  let ?report' = "report\<lparr>findings := Some ?fs',
                          rules_applied := Some (length (filter (rule_applies report) ?rs))\<rparr>"
  have app: "apply_rules_to_report render st eng' report = (Inr ?report', eng')"
    using ne fs by (simp add: apply_rules_to_report_def eng' get_default_def Let_def)
  have a: "findings ?report' = Some ?fs'" by simp
  have b: "length ?fs' = length fs" by simp
  have nth: "?fs' ! i = ?f'" using i imp by simp
  have c: "finding_name (?fs' ! i) = Some ''Cardiomegaly''" unfolding nth using fn by simp
  have d: "confidence (?fs' ! i) = Some (9 / 10)" unfolding nth by simp
  have e: "confidence_adjusted (?fs' ! i) = Some True" unfolding nth by simp
  have r: "rules eng' = ?rs" by (simp add: eng')
  have mem': "ConfidenceAdjustment ''Cardiomegaly'' (4 / 10) ?n \<in> set ?rs" using mem by simp
  show ?thesis
    by (intro exI [of _ ?rs] exI [of _ ?n] exI [of _ ?report'] exI [of _ ?fs'] conjI
          res r mem' app a b c d e)
qed

text \<open>C3, at the sample store and the generated report.\<close>

theorem end_to_end_learning_loop_witness:
  "learning_data_file learned_store = Json [learned_entry] \<and>
   has_edits learned_entry \<and>
   original_findings learned_entry = [plain_finding ''Cardiomegaly'' (5 / 10)] \<and>
   edited_findings learned_entry = [plain_finding ''Cardiomegaly'' (9 / 10)] \<and>
   mine_rules names_render learned_store new_engine 1 =
     (Inr learned_rules, \<lparr>rules = learned_rules\<rparr>) \<and>
   findings generated_report = Some [plain_finding ''Cardiomegaly'' (5 / 10)] \<and>
   (\<exists>n. ConfidenceAdjustment ''Cardiomegaly'' (4 / 10) n \<in> set learned_rules) \<and>
   (\<exists>report' fs'.
      apply_rules_to_report names_render learned_store \<lparr>rules = learned_rules\<rparr>
        generated_report = (Inr report', \<lparr>rules = learned_rules\<rparr>) \<and>
      findings report' = Some fs' \<and>
      confidence (fs' ! 0) = Some (9 / 10) \<and> confidence_adjusted (fs' ! 0) = Some True)"
proof -
  have h1: "learning_data_file learned_store = Json [learned_entry]" by code_simp
  have h2: "has_edits learned_entry" by (simp add: learned_entry_def)
  have h3: "original_findings learned_entry = [plain_finding ''Cardiomegaly'' (5 / 10)]"
    by (simp add: learned_entry_def)
  have h4: "edited_findings learned_entry = [plain_finding ''Cardiomegaly'' (9 / 10)]"
    by (simp add: learned_entry_def)
  have h5: "finding_name (plain_finding ''Cardiomegaly'' (5 / 10)) = Some ''Cardiomegaly''"
    "confidence (plain_finding ''Cardiomegaly'' (5 / 10)) = Some (5 / 10)"
    "finding_name (plain_finding ''Cardiomegaly'' (9 / 10)) = Some ''Cardiomegaly''"
    "confidence (plain_finding ''Cardiomegaly'' (9 / 10)) = Some (9 / 10)"
    by (simp_all add: plain_finding_def)
  have h6: "mine_rules names_render learned_store new_engine 1 =
     (Inr learned_rules, \<lparr>rules = learned_rules\<rparr>)"
    by code_simp
  have h7: "findings generated_report = Some [plain_finding ''Cardiomegaly'' (5 / 10)]"
    by (simp add: generated_report_def plain_report_def)
  have h8: "0 < length [plain_finding ''Cardiomegaly'' (5 / 10)]" by simp
  have h9: "finding_name ([plain_finding ''Cardiomegaly'' (5 / 10)] ! 0) = Some ''Cardiomegaly''"
    "confidence ([plain_finding ''Cardiomegaly'' (5 / 10)] ! 0) = Some (5 / 10)"
    by (simp_all add: plain_finding_def)
  note t = end_to_end_learning_loop [OF h1 h2 h3 h4 h5 h6 h7 h8 h9]
  from t have "(\<exists>n. ConfidenceAdjustment ''Cardiomegaly'' (4 / 10) n \<in> set learned_rules) \<and>
   (\<exists>report' fs'.
      apply_rules_to_report names_render learned_store \<lparr>rules = learned_rules\<rparr>
        generated_report = (Inr report', \<lparr>rules = learned_rules\<rparr>) \<and>
      findings report' = Some fs' \<and>
      confidence (fs' ! 0) = Some (9 / 10) \<and> confidence_adjusted (fs' ! 0) = Some True)"
    by blast
  with h1 h2 h3 h4 h6 h7 show ?thesis by blast
qed

section \<open>Rule miner: determinism and order\<close>

lemma fold_if: "fold (\<lambda>x acc. if P x then f x acc else acc) xs acc = fold f (filter P xs) acc"
  by (induction xs arbitrary: acc) simp_all

lemma fold_nested: "fold (\<lambda>e acc. fold f (g e) acc) es acc = fold f (concat (map g es)) acc"
  by (induction es arbitrary: acc) simp_all

lemma keys_fold:
  assumes step: "\<And>e acc. map fst (step e acc) =
      (if key e \<in> set (map fst acc) then map fst acc else map fst acc @ [key e])"
  shows "map fst (fold step evs acc) =
         map fst acc @ first_occurrences (filter (\<lambda>k. k \<notin> set (map fst acc)) (map key evs))"
proof (induction evs arbitrary: acc)
  case Nil
  then show ?case by simp
next
  case (Cons e evs)
  show ?case
  proof (cases "key e \<in> set (map fst acc)")
    case True
    then have "map fst (step e acc) = map fst acc" by (simp add: step)
    with True show ?thesis using Cons.IH [of "step e acc"] by simp
  next
    case False
    then have k: "map fst (step e acc) = map fst acc @ [key e]" by (simp add: step)
    have "filter (\<lambda>k. k \<notin> set (map fst acc @ [key e])) (map key evs) =
          removeAll (key e) (filter (\<lambda>k. k \<notin> set (map fst acc)) (map key evs))"
      by (induction evs) auto
    with False k show ?thesis using Cons.IH [of "step e acc"] by simp
  qed
qed

lemma keys_fold_empty:
  assumes "\<And>e acc. map fst (step e acc) =
      (if key e \<in> set (map fst acc) then map fst acc else map fst acc @ [key e])"
  shows "map fst (fold step evs []) = first_occurrences (map key evs)"
  using keys_fold [of step key evs "[]", OF assms] by simp

lemma extract_edit_patterns_fold:
  "extract_edit_patterns learning_data =
     fold (\<lambda>(orig_f, edit_f).
             counter_incr (get_default (finding_name orig_f) '''' @ '' -> '' @
                           get_default (finding_name edit_f) ''''))
       (filter (\<lambda>(orig_f, edit_f). orig_f \<noteq> edit_f)
          (concat (map (\<lambda>entry. if has_edits entry
                                  then zip (original_findings entry) (edited_findings entry)
                                  else [])
                     learning_data)))
       []"
proof -
  have step: "edit_pattern_step =
      (\<lambda>pair acc. if (case pair of (orig_f, edit_f) \<Rightarrow> orig_f \<noteq> edit_f)
         then (case pair of (orig_f, edit_f) \<Rightarrow>
                 counter_incr (get_default (finding_name orig_f) '''' @ '' -> '' @
                               get_default (finding_name edit_f) '''')) acc
         else acc)"
    by (auto simp: edit_pattern_step_def fun_eq_iff)
  have outer: "(\<lambda>entry patterns.
             if \<not> has_edits entry then patterns
             else fold edit_pattern_step
                    (zip (original_findings entry) (edited_findings entry)) patterns) =
        (\<lambda>entry patterns. fold edit_pattern_step
            (if has_edits entry then zip (original_findings entry) (edited_findings entry)
             else []) patterns)"
    by (auto simp: fun_eq_iff)
  show ?thesis
    unfolding extract_edit_patterns_def outer fold_nested
    by (subst step) (simp only: fold_if)
qed

lemma keys_counter_incr:
  "map fst (counter_incr k acc) =
     (if k \<in> set (map fst acc) then map fst acc else map fst acc @ [k])"
  by (simp add: counter_incr_def update_keys)

lemma keys_extract_edit_patterns:
  "map fst (extract_edit_patterns learning_data) = first_occurrences (edit_events learning_data)"
  unfolding extract_edit_patterns_fold edit_events_def
  by (rule keys_fold_empty) (auto simp: keys_counter_incr split: prod.splits)

lemma confidence_adjustments_fold:
  "fold (\<lambda>entry adjustments.
           fold confidence_step (zip (original_findings entry) (edited_findings entry)) adjustments)
     learning_data [] =
   fold (\<lambda>(orig_f, edit_f) adjustments.
           AList.update (get_default (finding_name orig_f) '''')
             (get_default (map_of adjustments (get_default (finding_name orig_f) '''')) [] @
              [get_default (confidence edit_f) (5 / 10) - get_default (confidence orig_f) (5 / 10)])
             adjustments)
     (filter (\<lambda>(orig_f, edit_f).
                1 / 10 < \<bar>get_default (confidence orig_f) (5 / 10) -
                          get_default (confidence edit_f) (5 / 10)\<bar>)
        (concat (map (\<lambda>entry. zip (original_findings entry) (edited_findings entry))
                   learning_data)))
     []"
proof -
  have step: "confidence_step =
      (\<lambda>pair acc.
         if (case pair of (orig_f, edit_f) \<Rightarrow>
               1 / 10 < \<bar>get_default (confidence orig_f) (5 / 10) -
                         get_default (confidence edit_f) (5 / 10)\<bar>)
         then (case pair of (orig_f, edit_f) \<Rightarrow> \<lambda>adjustments.
                 AList.update (get_default (finding_name orig_f) '''')
                   (get_default (map_of adjustments (get_default (finding_name orig_f) '''')) [] @
                    [get_default (confidence edit_f) (5 / 10) -
                     get_default (confidence orig_f) (5 / 10)])
                   adjustments) acc
         else acc)"
    by (auto simp: confidence_step_def fun_eq_iff Let_def)
  show ?thesis
    unfolding fold_nested by (subst step) (simp only: fold_if)
qed

lemma keys_extract_confidence_patterns:
  "map fst (extract_confidence_patterns learning_data) =
   first_occurrences (confidence_events learning_data)"
proof -
  have "map fst (extract_confidence_patterns learning_data) =
        map fst (fold (\<lambda>entry adjustments.
           fold confidence_step (zip (original_findings entry) (edited_findings entry)) adjustments)
          learning_data [])"
    by (simp add: extract_confidence_patterns_def Let_def split_def comp_def)
  also have "\<dots> = first_occurrences (confidence_events learning_data)"
    unfolding confidence_adjustments_fold confidence_events_def
    by (rule keys_fold_empty) (auto simp: update_keys split: prod.splits)
  finally show ?thesis .
qed

lemma inner_cooccurrences_fold:
  "fold (\<lambda>name2 assocs. assoc_add name2 name1 (assoc_add name1 name2 assocs)) rest assocs =
   fold (\<lambda>(k, v). assoc_add k v)
     (concat (map (\<lambda>name2. [(name1, name2), (name2, name1)]) rest)) assocs"
  by (induction rest arbitrary: assocs) simp_all

lemma cooccurrences_fold:
  "cooccurrences names assocs = fold (\<lambda>(k, v). assoc_add k v) (name_pairs names) assocs"
  by (induction names arbitrary: assocs) (simp_all add: inner_cooccurrences_fold)

lemma keys_assoc_add:
  "map fst (assoc_add k v acc) =
     (if k \<in> set (map fst acc) then map fst acc else map fst acc @ [k])"
  by (simp add: assoc_add_def update_keys)

lemma keys_extract_finding_patterns:
  "map fst (extract_finding_patterns learning_data) =
   first_occurrences (association_events learning_data)"
proof -
  have "extract_finding_patterns learning_data =
        fold (\<lambda>(k, v). assoc_add k v)
          (concat (map (\<lambda>entry. name_pairs (finding_names (original_findings entry)))
                     learning_data)) []"
    by (simp add: extract_finding_patterns_def cooccurrences_fold fold_nested)
  then show ?thesis
    unfolding association_events_def
    using keys_fold_empty [of "\<lambda>(k, v). assoc_add k v" fst]
    by (simp add: keys_assoc_add split_def)
qed

lemma patterns_edit_rules:
  "map pattern (edit_rules render learning_data k) =
   map fst (filter (\<lambda>(pat, count). k \<le> int count) (extract_edit_patterns learning_data))"
  by (simp add: edit_rules_def split_def comp_def)

lemma patterns_confidence_rules:
  "map pattern (confidence_rules render learning_data) =
   map fst (filter (\<lambda>(pat, adj). 1 / 10 < \<bar>adj\<bar>) (extract_confidence_patterns learning_data))"
  by (simp add: confidence_rules_def split_def comp_def)

lemma patterns_association_rules:
  "map pattern (association_rules learning_data k) =
   map fst (filter (\<lambda>(pat, assocs). k \<le> int (card assocs))
              (extract_finding_patterns learning_data))"
  by (simp add: association_rules_def split_def comp_def)

lemma subseq_keys_filter: "subseq (map fst (filter P xs)) (map fst xs)"
  by (rule subseq_map) simp

lemma variants_of_rules:
  "list_all is_edit_pattern (edit_rules render learning_data k)"
  "list_all is_confidence_adjustment (confidence_rules render learning_data)"
  "list_all is_finding_association (association_rules learning_data k)"
  by (simp_all add: edit_rules_def confidence_rules_def association_rules_def list_all_iff
        is_edit_pattern_def is_confidence_adjustment_def is_finding_association_def split_def)

lemma sorted_reverse_descending:
  "sorted_wrt (\<lambda>a b. k b \<le> k a) (sorted_reverse k xs)"
proof -
  have "sorted (map (\<lambda>x. - k x) (sorted_reverse k xs))"
    unfolding sorted_reverse_def by (rule sorted_sort_key)
  then show ?thesis by (simp add: sorted_map)
qed

lemma sorted_reverse_stable:
  "filter (\<lambda>x. k x = n) (sorted_reverse k xs) = filter (\<lambda>x. k x = n) xs"
proof -
  have "filter (\<lambda>x. - k x = - n) (sort_key (\<lambda>x. - k x) xs) = filter (\<lambda>x. - k x = - n) xs"
    by (rule sort_key_stable)
  then show ?thesis by (simp add: sorted_reverse_def)
qed

lemma mine_rules_result:
  assumes "load_learning_data st = Inr learning_data"
  shows "mine_rules render st eng k =
     (Inr (sorted_reverse (\<lambda>x. int (support x))
            (edit_rules render learning_data k @ confidence_rules render learning_data @
             association_rules learning_data k)),
      if learning_data = [] then eng
      else eng\<lparr>rules := sorted_reverse (\<lambda>x. int (support x))
            (edit_rules render learning_data k @ confidence_rules render learning_data @
             association_rules learning_data k)\<rparr>)"
proof (cases "learning_data = []")
  case True
  then show ?thesis
    using assms
    by (simp add: mine_rules_def edit_rules_def confidence_rules_def association_rules_def
          extract_edit_patterns_def extract_confidence_patterns_def extract_finding_patterns_def
          sorted_reverse_def)
next
  case False
  then show ?thesis using assms by (simp add: mine_rules_def Let_def)
qed

lemma mine_rules_error:
  assumes "load_learning_data st = Inl e"
  shows "mine_rules render st eng k = (Inl e, eng)"
  using assms by (simp add: mine_rules_def)

lemma load_learning_data_independent:
  "fst (mine_rules render st eng k) = fst (mine_rules render st other k)"
  by (cases "load_learning_data st") (simp_all add: mine_rules_error mine_rules_result)

text \<open>
  C5. Mining again on the engine that a mining call leaves returns the same result and
  leaves the same engine, and the result does not depend on the engine at all: it is
  determined by the learning log, the rendering and \<open>min_support\<close>. A mined rule list is
  sorted by support, descending, and the rules of equal support keep the order in which
  they were found: the edit patterns, then the confidence adjustments, then the finding
  associations, the patterns of each pass in the order of their first occurrence in the
  learning log.
\<close>

theorem mining_deterministic_and_ordered:
  "mine_rules render st eng min_support = (res, eng') \<longrightarrow>
     mine_rules render st eng' min_support = (res, eng') \<and>
     (\<forall>other. fst (mine_rules render st other min_support) = res) \<and>
     (\<forall>rs. res = Inr rs \<longrightarrow>
        (\<exists>learning_data.
           load_learning_data st = Inr learning_data \<and>
           sorted_wrt (\<lambda>a b. support b \<le> support a) rs \<and>
           (\<forall>n. filter (\<lambda>r. support r = n) rs =
                filter (\<lambda>r. support r = n)
                  (edit_rules render learning_data min_support @
                   confidence_rules render learning_data @
                   association_rules learning_data min_support)) \<and>
           list_all is_edit_pattern (edit_rules render learning_data min_support) \<and>
           list_all is_confidence_adjustment (confidence_rules render learning_data) \<and>
           list_all is_finding_association (association_rules learning_data min_support) \<and>
           subseq (map pattern (edit_rules render learning_data min_support))
             (first_occurrences (edit_events learning_data)) \<and>
           subseq (map pattern (confidence_rules render learning_data))
             (first_occurrences (confidence_events learning_data)) \<and>
           subseq (map pattern (association_rules learning_data min_support))
             (first_occurrences (association_events learning_data))))"
proof (rule impI)
  assume m: "mine_rules render st eng min_support = (res, eng')"
  have again: "mine_rules render st eng' min_support = (res, eng')"
  proof (cases "load_learning_data st")
    case (Inl e)
    then show ?thesis using m by (simp add: mine_rules_error)
  next
    case (Inr learning_data)
    then show ?thesis using m by (auto simp: mine_rules_result split: if_splits)
  qed
  have indep: "\<forall>other. fst (mine_rules render st other min_support) = res"
    using m load_learning_data_independent [of render st eng min_support] by simp
  have ordered: "\<exists>learning_data.
           load_learning_data st = Inr learning_data \<and>
           sorted_wrt (\<lambda>a b. support b \<le> support a) rs \<and>
           (\<forall>n. filter (\<lambda>r. support r = n) rs =
                filter (\<lambda>r. support r = n)
                  (edit_rules render learning_data min_support @
                   confidence_rules render learning_data @
                   association_rules learning_data min_support)) \<and>
           list_all is_edit_pattern (edit_rules render learning_data min_support) \<and>
           list_all is_confidence_adjustment (confidence_rules render learning_data) \<and>
           list_all is_finding_association (association_rules learning_data min_support) \<and>
           subseq (map pattern (edit_rules render learning_data min_support))
             (first_occurrences (edit_events learning_data)) \<and>
           subseq (map pattern (confidence_rules render learning_data))
             (first_occurrences (confidence_events learning_data)) \<and>
           subseq (map pattern (association_rules learning_data min_support))
             (first_occurrences (association_events learning_data))"
    if res: "res = Inr rs" for rs
  proof (cases "load_learning_data st")
    case (Inl e)
    then show ?thesis using m res by (simp add: mine_rules_error)
  next
    case (Inr learning_data)
    let ?found = "edit_rules render learning_data min_support @
                  confidence_rules render learning_data @
                  association_rules learning_data min_support"
    have rs: "rs = sorted_reverse (\<lambda>x. int (support x)) ?found"
      using m res Inr by (simp add: mine_rules_result)
    have desc: "sorted_wrt (\<lambda>a b. support b \<le> support a) rs"
      unfolding rs using sorted_reverse_descending [of "\<lambda>x. int (support x)" ?found] by simp
    have stable: "\<forall>n. filter (\<lambda>r. support r = n) rs = filter (\<lambda>r. support r = n) ?found"
    proof
      fix n
      show "filter (\<lambda>r. support r = n) rs = filter (\<lambda>r. support r = n) ?found"
        unfolding rs
        using sorted_reverse_stable [of "\<lambda>x. int (support x)" "int n" ?found]
        by (simp only: of_nat_eq_iff)
    qed

    have e: "subseq (map pattern (edit_rules render learning_data min_support))
             (first_occurrences (edit_events learning_data))"
      unfolding patterns_edit_rules keys_extract_edit_patterns [symmetric]
      by (rule subseq_keys_filter)
    have c: "subseq (map pattern (confidence_rules render learning_data))
             (first_occurrences (confidence_events learning_data))"
      unfolding patterns_confidence_rules keys_extract_confidence_patterns [symmetric]
      by (rule subseq_keys_filter)
    have a: "subseq (map pattern (association_rules learning_data min_support))
             (first_occurrences (association_events learning_data))"
      unfolding patterns_association_rules keys_extract_finding_patterns [symmetric]
      by (rule subseq_keys_filter)
    show ?thesis
      by (rule exI [of _ learning_data]) (intro conjI Inr desc stable variants_of_rules e c a)
  qed
  from again indep ordered
  show "mine_rules render st eng' min_support = (res, eng') \<and>
     (\<forall>other. fst (mine_rules render st other min_support) = res) \<and>
     (\<forall>rs. res = Inr rs \<longrightarrow>
        (\<exists>learning_data.
           load_learning_data st = Inr learning_data \<and>
           sorted_wrt (\<lambda>a b. support b \<le> support a) rs \<and>
           (\<forall>n. filter (\<lambda>r. support r = n) rs =
                filter (\<lambda>r. support r = n)
                  (edit_rules render learning_data min_support @
                   confidence_rules render learning_data @
                   association_rules learning_data min_support)) \<and>
           list_all is_edit_pattern (edit_rules render learning_data min_support) \<and>
           list_all is_confidence_adjustment (confidence_rules render learning_data) \<and>
           list_all is_finding_association (association_rules learning_data min_support) \<and>
           subseq (map pattern (edit_rules render learning_data min_support))
             (first_occurrences (edit_events learning_data)) \<and>
           subseq (map pattern (confidence_rules render learning_data))
             (first_occurrences (confidence_events learning_data)) \<and>
           subseq (map pattern (association_rules learning_data min_support))
             (first_occurrences (association_events learning_data))))"
    by blast
qed

text \<open>C5, at the sample store, mined with \<open>min_support = 1\<close>.\<close>

theorem mining_deterministic_and_ordered_witness:
  "mine_rules names_render learned_store new_engine 1 =
     (Inr learned_rules, \<lparr>rules = learned_rules\<rparr>) \<and>
   mine_rules names_render learned_store \<lparr>rules = learned_rules\<rparr> 1 =
     (Inr learned_rules, \<lparr>rules = learned_rules\<rparr>) \<and>
   sorted_wrt (\<lambda>a b. support b \<le> support a) learned_rules"
proof -
  have h: "mine_rules names_render learned_store new_engine 1 =
     (Inr learned_rules, \<lparr>rules = learned_rules\<rparr>)"
    by code_simp
  note t = mining_deterministic_and_ordered [where render = names_render and st = learned_store
      and eng = new_engine and min_support = 1 and res = "Inr learned_rules"
      and eng' = "\<lparr>rules = learned_rules\<rparr>"]
  from t h have again: "mine_rules names_render learned_store \<lparr>rules = learned_rules\<rparr> 1 =
     (Inr learned_rules, \<lparr>rules = learned_rules\<rparr>)"
    by blast
  from t h have "\<exists>learning_data.
      load_learning_data learned_store = Inr learning_data \<and>
      sorted_wrt (\<lambda>a b. support b \<le> support a) learned_rules \<and>
      (\<forall>n. filter (\<lambda>r. support r = n) learned_rules =
           filter (\<lambda>r. support r = n)
             (edit_rules names_render learning_data 1 @
              confidence_rules names_render learning_data @
              association_rules learning_data 1)) \<and>
      list_all is_edit_pattern (edit_rules names_render learning_data 1) \<and>
      list_all is_confidence_adjustment (confidence_rules names_render learning_data) \<and>
      list_all is_finding_association (association_rules learning_data 1) \<and>
      subseq (map pattern (edit_rules names_render learning_data 1))
        (first_occurrences (edit_events learning_data)) \<and>
      subseq (map pattern (confidence_rules names_render learning_data))
        (first_occurrences (confidence_events learning_data)) \<and>
      subseq (map pattern (association_rules learning_data 1))
        (first_occurrences (association_events learning_data))"
    by blast
  then have "sorted_wrt (\<lambda>a b. support b \<le> support a) learned_rules" by blast
  with h again show ?thesis by blast
qed

end
